theory Spec2Isabelle
  imports Complex_Main "HOL-Library.AList"
begin

section \<open>JavaScript values\<close>

text \<open>
  The module \<^verbatim>\<open>src/libs/actions/Transaction.ts\<close> moves untyped store values around:
  it spreads objects, reads properties through \<^verbatim>\<open>?.\<close>, defaults with \<^verbatim>\<open>??\<close> and
  tests own properties. The values are modelled as they are at run time. An object is
  the list of its own properties in enumeration order (for the identifier-like keys of
  this module that is insertion order); a number is a rational, \<open>NaN\<close> or an infinity
  (the rounding of a literal to a double is not modelled); a string is a list of code
  units, of which the model has the 8-bit ones.
\<close>

datatype js_number = NaN | Fin rat | PosInf | NegInf

datatype jsval =
    JUndefined
  | JNull
  | JBool bool
  | JNum js_number
  | JStr string
  | JArr "jsval list"
  | JObj "(string \<times> jsval) list"

text \<open>Conversion of an array index or a count to a string: its decimal digits.\<close>

definition digit_char :: "nat \<Rightarrow> char" where
  "digit_char d = ''0123456789'' ! d"

fun show_nat :: "nat \<Rightarrow> string" where
  "show_nat n = (if n < 10 then [digit_char n] else show_nat (n div 10) @ [digit_char (n mod 10)])"

declare show_nat.simps [simp del]

text \<open>
  The own enumerable properties of a value, as \<^verbatim>\<open>Object.keys\<close>, \<^verbatim>\<open>Object.values\<close> and
  object spread see them. The module only applies them behind \<^verbatim>\<open>?? {}\<close> or to a spread
  operand, where \<^verbatim>\<open>undefined\<close> and \<^verbatim>\<open>null\<close> contribute nothing.
\<close>

fun own_entries :: "jsval \<Rightarrow> (string \<times> jsval) list" where
  "own_entries (JObj fs) = fs"
| "own_entries (JArr xs) = zip (map show_nat [0..<length xs]) xs"
| "own_entries (JStr s) = zip (map show_nat [0..<length s]) (map (\<lambda>c. JStr [c]) s)"
| "own_entries _ = []"

definition Object_keys :: "jsval \<Rightarrow> string list" where
  "Object_keys v = map fst (own_entries v)"

definition Object_values :: "jsval \<Rightarrow> jsval list" where
  "Object_values v = map snd (own_entries v)"

text \<open>
  Property read \<^verbatim>\<open>v?.k\<close>. The module reads identifier keys only (\<^verbatim>\<open>comment\<close>,
  \<^verbatim>\<open>waypoints\<close>, \<^verbatim>\<open>address\<close>, \<^verbatim>\<open>amount\<close>, ...), which no array, string, number or
  boolean has: there the read gives \<^verbatim>\<open>undefined\<close>, as it does on \<^verbatim>\<open>null\<close> and
  \<^verbatim>\<open>undefined\<close> through the optional chaining.
\<close>

fun get :: "jsval \<Rightarrow> string \<Rightarrow> jsval" where
  "get (JObj fs) k = (case map_of fs k of Some v \<Rightarrow> v | None \<Rightarrow> JUndefined)"
| "get _ k = JUndefined"

text \<open>\<^verbatim>\<open>a ?? b\<close>: the right operand when the left one is \<^verbatim>\<open>null\<close> or \<^verbatim>\<open>undefined\<close>.\<close>

definition nullish :: "jsval \<Rightarrow> jsval \<Rightarrow> jsval" where
  "nullish a b = (if a = JUndefined \<or> a = JNull then b else a)"

text \<open>\<^verbatim>\<open>lodashHas(v, k)\<close> for a one-segment path: \<open>k\<close> is an own property of \<open>v\<close>.\<close>

fun lodashHas :: "jsval \<Rightarrow> string \<Rightarrow> bool" where
  "lodashHas (JObj fs) k = (k \<in> fst ` set fs)"
| "lodashHas _ k = False"

text \<open>
  \<^verbatim>\<open>isEqual(a, b)\<close> of lodash. The module calls it with a string constant as \<open>b\<close>, for
  which deep equality is equality of values.
\<close>

definition isEqual :: "jsval \<Rightarrow> jsval \<Rightarrow> bool" where
  "isEqual a b = (a = b)"

text \<open>
  \<^verbatim>\<open>a === b\<close>. Objects and arrays are compared by reference, which a value does not
  carry: two of them are taken to be distinct references. \<open>NaN\<close> equals nothing.
\<close>

fun strict_equals :: "jsval \<Rightarrow> jsval \<Rightarrow> bool" where
  "strict_equals (JNum a) (JNum b) = (a \<noteq> NaN \<and> a = b)"
| "strict_equals (JArr a) b = False"
| "strict_equals (JObj a) b = False"
| "strict_equals a b = (a = b)"

text \<open>Truthiness, as \<^verbatim>\<open>!v\<close> tests it.\<close>

fun truthy :: "jsval \<Rightarrow> bool" where
  "truthy JUndefined = False"
| "truthy JNull = False"
| "truthy (JBool b) = b"
| "truthy (JNum n) = (n \<noteq> NaN \<and> n \<noteq> Fin 0)"
| "truthy (JStr s) = (s \<noteq> [])"
| "truthy (JArr xs) = True"
| "truthy (JObj fs) = True"

text \<open>\<^verbatim>\<open>xs.find(p)\<close>: the first element that satisfies \<open>p\<close>, or \<^verbatim>\<open>undefined\<close>.\<close>

definition array_find :: "(jsval \<Rightarrow> bool) \<Rightarrow> jsval list \<Rightarrow> jsval" where
  "array_find p xs = (case List.find p xs of Some x \<Rightarrow> x | None \<Rightarrow> JUndefined)"

subsection \<open>String to number\<close>

text \<open>
  \<^verbatim>\<open>Number(s)\<close> on a string follows the grammar \<^verbatim>\<open>StringNumericLiteral\<close>: white space
  around an optional literal, which is a signed decimal literal (digits, fraction,
  exponent, or \<^verbatim>\<open>Infinity\<close>) or an unsigned binary, octal or hexadecimal integer. The
  empty literal is 0 and whatever the grammar rejects is \<open>NaN\<close>.
\<close>

definition hex_digit :: "char \<Rightarrow> nat option" where
  "hex_digit = map_of
     [(CHR ''0'', 0), (CHR ''1'', 1), (CHR ''2'', 2), (CHR ''3'', 3), (CHR ''4'', 4),
      (CHR ''5'', 5), (CHR ''6'', 6), (CHR ''7'', 7), (CHR ''8'', 8), (CHR ''9'', 9),
      (CHR ''a'', 10), (CHR ''b'', 11), (CHR ''c'', 12), (CHR ''d'', 13), (CHR ''e'', 14),
      (CHR ''f'', 15), (CHR ''A'', 10), (CHR ''B'', 11), (CHR ''C'', 12), (CHR ''D'', 13),
      (CHR ''E'', 14), (CHR ''F'', 15)]"

fun digits_value :: "nat \<Rightarrow> string \<Rightarrow> nat \<Rightarrow> nat option" where
  "digits_value b [] acc = Some acc"
| "digits_value b (c # cs) acc =
     (case hex_digit c of
        None \<Rightarrow> None
      | Some d \<Rightarrow> if d < b then digits_value b cs (acc * b + d) else None)"

definition radix_literal :: "nat \<Rightarrow> string \<Rightarrow> js_number" where
  "radix_literal b ds =
     (if ds = [] then NaN
      else case digits_value b ds 0 of None \<Rightarrow> NaN | Some n \<Rightarrow> Fin (of_nat n))"

definition is_digit :: "char \<Rightarrow> bool" where
  "is_digit c = (c \<in> set ''0123456789'')"

definition DecimalDigits :: "string \<Rightarrow> nat option" where
  "DecimalDigits ds = (if ds = [] then None else digits_value 10 ds 0)"

definition SignedInteger :: "string \<Rightarrow> int option" where
  "SignedInteger s =
     (case s of
        [] \<Rightarrow> None
      | c # t \<Rightarrow>
          if c = CHR ''+'' then map_option int (DecimalDigits t)
          else if c = CHR ''-'' then map_option (\<lambda>n. - int n) (DecimalDigits t)
          else map_option int (DecimalDigits s))"

definition StrUnsignedDecimalLiteral :: "string \<Rightarrow> js_number" where
  "StrUnsignedDecimalLiteral s =
     (if s = ''Infinity'' then PosInf
      else
        let ip = takeWhile is_digit s;
            r = dropWhile is_digit s;
            dot = (r \<noteq> [] \<and> hd r = CHR ''.'');
            fp = (if dot then takeWhile is_digit (tl r) else []);
            r2 = (if dot then dropWhile is_digit (tl r) else r);
            ex = (case r2 of
                    [] \<Rightarrow> Some 0
                  | c # t \<Rightarrow> if c = CHR ''e'' \<or> c = CHR ''E'' then SignedInteger t else None)
        in if ip = [] \<and> fp = [] then NaN
           else case (digits_value 10 (ip @ fp) 0, ex) of
                  (Some m, Some e) \<Rightarrow> Fin (of_nat m * 10 powi (e - int (length fp)))
                | _ \<Rightarrow> NaN)"

definition negate :: "js_number \<Rightarrow> js_number" where
  "negate n = (case n of NaN \<Rightarrow> NaN | Fin r \<Rightarrow> Fin (- r) | PosInf \<Rightarrow> NegInf | NegInf \<Rightarrow> PosInf)"

definition is_ws :: "char \<Rightarrow> bool" where
  "is_ws c = (c \<in> set [CHR 0x09, CHR 0x0A, CHR 0x0B, CHR 0x0C, CHR 0x0D, CHR 0x20, CHR 0xA0])"

definition trim :: "string \<Rightarrow> string" where
  "trim s = rev (dropWhile is_ws (rev (dropWhile is_ws s)))"

definition Number :: "string \<Rightarrow> js_number" where
  "Number str =
     (let s = trim str in
      if s = [] then Fin 0
      else if take 2 s = ''0x'' \<or> take 2 s = ''0X'' then radix_literal 16 (drop 2 s)
      else if take 2 s = ''0o'' \<or> take 2 s = ''0O'' then radix_literal 8 (drop 2 s)
      else if take 2 s = ''0b'' \<or> take 2 s = ''0B'' then radix_literal 2 (drop 2 s)
      else if hd s = CHR ''+'' then StrUnsignedDecimalLiteral (tl s)
      else if hd s = CHR ''-'' then negate (StrUnsignedDecimalLiteral (tl s))
      else StrUnsignedDecimalLiteral s)"

subsection \<open>Array.prototype.splice\<close>

text \<open>
  \<^verbatim>\<open>xs.splice(start, deleteCount, ...items)\<close>: \<open>start\<close> is truncated to an integer
  (\<open>NaN\<close> to 0), a negative one counts from the end, and both ends are clamped to the
  array. The result is the pair of the removed elements and of the array left behind.
\<close>

definition js_truncate :: "rat \<Rightarrow> int" where
  "js_truncate r = (if 0 \<le> r then \<lfloor>r\<rfloor> else \<lceil>r\<rceil>)"

definition splice_start :: "js_number \<Rightarrow> nat \<Rightarrow> nat" where
  "splice_start start len =
     (case start of
        NaN \<Rightarrow> 0
      | NegInf \<Rightarrow> 0
      | PosInf \<Rightarrow> len
      | Fin r \<Rightarrow>
          (let i = js_truncate r
           in if i < 0 then nat (max (int len + i) 0) else nat (min i (int len))))"

definition splice :: "js_number \<Rightarrow> nat \<Rightarrow> 'a list \<Rightarrow> 'a list \<Rightarrow> 'a list \<times> 'a list" where
  "splice start deleteCount items xs =
     (let a = splice_start start (length xs);
          dc = min deleteCount (length xs - a)
      in (take dc (drop a xs), take a xs @ items @ drop (a + dc) xs))"

section \<open>The store interface\<close>

text \<open>
  What this module takes from outside \<^verbatim>\<open>src/\<close>: the key constants of \<^verbatim>\<open>ONYXKEYS\<close>,
  the text \<^verbatim>\<open>CONST.YOUR_LOCATION_TEXT\<close>, the predicate
  \<^verbatim>\<open>TransactionUtils.waypointHasValidAddress\<close>, and two conversions of the host,
  \<^verbatim>\<open>JSON.stringify\<close> and the string conversion of a template literal on a value that is
  not a string. They are parameters of the model.
\<close>

record externals =
  COLLECTION_TRANSACTION :: string
  COLLECTION_TRANSACTION_DRAFT :: string
  NVP_RECENT_WAYPOINTS :: string
  YOUR_LOCATION_TEXT :: string
  waypointHasValidAddress :: "jsval \<Rightarrow> bool"
  JSON_stringify :: "jsval \<Rightarrow> string"
  ToString :: "jsval \<Rightarrow> string"

text \<open>
  A call of the store: \<^verbatim>\<open>Onyx.merge(key, value)\<close> or \<^verbatim>\<open>Onyx.set(key, value)\<close>. Every
  function of the module returns the calls it makes, in order.
\<close>

datatype onyx_call =
    Merge (call_key: string) (call_value: jsval)
  | Set (call_key: string) (call_value: jsval)

text \<open>\<^verbatim>\<open>`${v}`\<close> in a template literal.\<close>

definition template :: "externals \<Rightarrow> jsval \<Rightarrow> string" where
  "template X v =
     (case v of
        JStr s \<Rightarrow> s
      | JUndefined \<Rightarrow> ''undefined''
      | JNull \<Rightarrow> ''null''
      | JBool b \<Rightarrow> (if b then ''true'' else ''false'')
      | _ \<Rightarrow> ToString X v)"

text \<open>\<^verbatim>\<open>`waypoint${i}`\<close> for a count or an array index \<open>i\<close>.\<close>

definition waypointKey :: "nat \<Rightarrow> string" where
  "waypointKey i = ''waypoint'' @ show_nat i"

section \<open>The waypoint actions\<close>

definition createInitialWaypoints :: "externals \<Rightarrow> string \<Rightarrow> onyx_call list" where
  "createInitialWaypoints X transactionID =
     [Merge (COLLECTION_TRANSACTION X @ transactionID)
        (JObj [(''comment'',
           JObj [(''waypoints'', JObj [(''waypoint0'', JObj []), (''waypoint1'', JObj [])])])])]"

text \<open>
  \<open>addStop\<close> reads the module's mirror \<open>allTransactions\<close> of the transaction
  collection, a dictionary from transaction id to transaction.
\<close>

definition addStop :: "externals \<Rightarrow> (string \<rightharpoonup> jsval) \<Rightarrow> string \<Rightarrow> onyx_call list" where
  "addStop X allTransactions transactionID =
     (let transaction =
            (case allTransactions transactionID of Some t \<Rightarrow> nullish t (JObj []) | None \<Rightarrow> JObj []);
          existingWaypoints = nullish (get (get transaction ''comment'') ''waypoints'') (JObj []);
          newLastIndex = length (Object_keys existingWaypoints)
      in [Merge (COLLECTION_TRANSACTION X @ transactionID)
            (JObj [(''comment'',
               JObj [(''waypoints'', JObj [(waypointKey newLastIndex, JObj [])])])])])"

text \<open>
  \<open>saveWaypoint\<close> reads the module's mirror \<open>recentWaypoints\<close> of the recent
  waypoints, an array. The parameter \<open>isDraft\<close> defaults to false.
\<close>

definition saveWaypoint ::
  "externals \<Rightarrow> jsval list \<Rightarrow> string \<Rightarrow> string \<Rightarrow> jsval \<Rightarrow> bool \<Rightarrow> onyx_call list" where
  "saveWaypoint X recentWaypoints transactionID index waypoint isDraft =
     (let write =
        Merge ((if isDraft then COLLECTION_TRANSACTION X else COLLECTION_TRANSACTION_DRAFT X)
                 @ transactionID)
          (JObj [(''comment'', JObj [(''waypoints'', JObj [(''waypoint'' @ index, waypoint)])]),
                 (''errorFields'', JObj [(''route'', JNull)]),
                 (''routes'',
                    JObj [(''route0'', JObj [(''geometry'', JObj [(''coordinates'', JNull)])])])])
      in if \<not> lodashHas waypoint ''lat'' \<or> \<not> lodashHas waypoint ''lng'' then [write]
         else if isEqual (get waypoint ''address'') (JStr (YOUR_LOCATION_TEXT X)) then [write]
         else
           let recentWaypointAlreadyExists =
                 array_find
                   (\<lambda>recentWaypoint.
                      strict_equals (get recentWaypoint ''address'') (get waypoint ''address''))
                   recentWaypoints
           in if \<not> truthy recentWaypointAlreadyExists \<and> waypoint \<noteq> JNull
              then [write,
                    Merge (NVP_RECENT_WAYPOINTS X) (JArr (take 5 (waypoint # recentWaypoints)))]
              else [write])"

text \<open>The \<^verbatim>\<open>forEach\<close> of \<open>removeWaypoint\<close> that fills \<open>reIndexedWaypoints\<close>.\<close>

fun reIndex :: "nat \<Rightarrow> jsval list \<Rightarrow> (string \<times> jsval) list \<Rightarrow> (string \<times> jsval) list" where
  "reIndex idx [] reIndexedWaypoints = reIndexedWaypoints"
| "reIndex idx (waypoint # rest) reIndexedWaypoints =
     reIndex (Suc idx) rest (AList.update (waypointKey idx) waypoint reIndexedWaypoints)"

text \<open>
  The object literal of \<open>removeWaypoint\<close>: the spread of the transaction, then the ten
  defaulted fields and the comment, each assigned in the order of the source.
\<close>

definition defaulted :: "(string \<times> jsval) list" where
  "defaulted =
     [(''amount'', JNum (Fin 0)), (''billable'', JBool False), (''category'', JStr []),
      (''created'', JStr []), (''currency'', JStr []), (''pendingAction'', JNull),
      (''merchant'', JStr []), (''reportID'', JStr []), (''transactionID'', JStr []),
      (''tag'', JStr [])]"

definition assign ::
  "(string \<times> jsval) list \<Rightarrow> (string \<times> jsval) list \<Rightarrow> (string \<times> jsval) list" where
  "assign fs kvs = foldl (\<lambda>acc (k, v). AList.update k v acc) fs kvs"

definition rebuilt :: "jsval \<Rightarrow> (string \<times> jsval) list \<Rightarrow> (string \<times> jsval) list" where
  "rebuilt transaction reIndexedWaypoints =
     assign (own_entries transaction)
       (map (\<lambda>(k, d). (k, nullish (get transaction k) d)) defaulted @
        [(''comment'',
          JObj (assign (own_entries (get transaction ''comment''))
                  [(''waypoints'', JObj reIndexedWaypoints)]))])"

text \<open>
  \<open>removeWaypoint\<close>. The optional parameter \<open>isDraft\<close> is a boolean, false when it is
  left out.
\<close>

definition removeWaypoint :: "externals \<Rightarrow> jsval \<Rightarrow> string \<Rightarrow> bool \<Rightarrow> onyx_call list" where
  "removeWaypoint X transaction currentIndex isDraft =
     (let index = Number currentIndex;
          existingWaypoints = nullish (get (get transaction ''comment'') ''waypoints'') (JObj []);
          totalWaypoints = length (Object_keys existingWaypoints);
          (removed, waypointValues) = splice index 1 [] (Object_values existingWaypoints)
      in if length removed = 0 then []
         else
           let isRemovedWaypointEmpty =
                 (length removed > 0 \<and>
                  \<not> waypointHasValidAddress X (nullish (hd removed) (JObj [])));
               waypointValues =
                 (if totalWaypoints = 2 \<and>
                     (index = Fin 0 \<or> index = Fin (of_nat totalWaypoints - 1))
                  then snd (splice index 0 [JObj []] waypointValues)
                  else waypointValues);
               reIndexedWaypoints = reIndex 0 waypointValues [];
               newTransaction = rebuilt transaction reIndexedWaypoints;
               newTransaction =
                 (if \<not> isRemovedWaypointEmpty
                  then assign newTransaction
                         [(''errorFields'', JObj [(''route'', JNull)]),
                          (''routes'',
                             JObj [(''route0'',
                                JObj [(''distance'', JNull),
                                      (''geometry'', JObj [(''coordinates'', JNull)])])])]
                  else newTransaction)
           in if isDraft
              then [Set (COLLECTION_TRANSACTION_DRAFT X
                           @ template X (get transaction ''transactionID''))
                      (JObj newTransaction)]
              else [Set (COLLECTION_TRANSACTION X
                           @ template X (get transaction ''transactionID''))
                      (JObj newTransaction)])"

section \<open>Route requests\<close>

datatype onyx_method = METHOD_MERGE | METHOD_SET

datatype onyx_update =
  Update (onyxMethod: onyx_method) (update_key: string) (update_value: jsval)

record onyx_data =
  optimisticData :: "onyx_update list"
  successData :: "onyx_update list"
  failureData :: "onyx_update list"

text \<open>\<^verbatim>\<open>API.read(command, parameters, onyxData)\<close>.\<close>

datatype api_call = API_read string "(string \<times> jsval) list" onyx_data

definition getOnyxDataForRouteRequest :: "externals \<Rightarrow> string \<Rightarrow> bool \<Rightarrow> onyx_data" where
  "getOnyxDataForRouteRequest X transactionID isDraft =
     \<lparr>optimisticData =
        [Update METHOD_MERGE
           ((if isDraft then COLLECTION_TRANSACTION_DRAFT X else COLLECTION_TRANSACTION X)
              @ transactionID)
           (JObj [(''comment'', JObj [(''isLoading'', JBool True)]),
                  (''errorFields'', JObj [(''route'', JNull)])])],
      successData =
        [Update METHOD_MERGE
           ((if isDraft then COLLECTION_TRANSACTION_DRAFT X else COLLECTION_TRANSACTION X)
              @ transactionID)
           (JObj [(''comment'', JObj [(''isLoading'', JBool False)])])],
      failureData =
        [Update METHOD_MERGE
           ((if isDraft then COLLECTION_TRANSACTION_DRAFT X else COLLECTION_TRANSACTION X)
              @ transactionID)
           (JObj [(''comment'', JObj [(''isLoading'', JBool False)])])]\<rparr>"

definition getRoute :: "externals \<Rightarrow> string \<Rightarrow> jsval \<Rightarrow> api_call" where
  "getRoute X transactionID waypoints =
     API_read ''GetRoute''
       [(''transactionID'', JStr transactionID),
        (''waypoints'', JStr (JSON_stringify X waypoints))]
       (getOnyxDataForRouteRequest X transactionID False)"

definition getRouteForDraft :: "externals \<Rightarrow> string \<Rightarrow> jsval \<Rightarrow> api_call" where
  "getRouteForDraft X transactionID waypoints =
     API_read ''GetRouteForDraft''
       [(''transactionID'', JStr transactionID),
        (''waypoints'', JStr (JSON_stringify X waypoints))]
       (getOnyxDataForRouteRequest X transactionID True)"

text \<open>
  \<open>updateWaypoints\<close> returns the promise of its one \<^verbatim>\<open>Onyx.merge\<close>: the model returns
  that call. The parameter \<open>isDraft\<close> defaults to false.
\<close>

definition updateWaypoints :: "externals \<Rightarrow> string \<Rightarrow> jsval \<Rightarrow> bool \<Rightarrow> onyx_call" where
  "updateWaypoints X transactionID waypoints isDraft =
     Merge ((if isDraft then COLLECTION_TRANSACTION_DRAFT X else COLLECTION_TRANSACTION X)
              @ transactionID)
       (JObj [(''comment'', JObj [(''waypoints'', waypoints)]),
              (''errorFields'', JObj [(''route'', JNull)]),
              (''routes'',
                 JObj [(''route0'',
                    JObj [(''distance'', JNull),
                          (''geometry'', JObj [(''coordinates'', JNull)])])])])"

text \<open>
  Line 105 of \<open>removeWaypoint\<close> and line 48 of \<open>addStop\<close>: the waypoints of a
  transaction, the empty object when there are none.
\<close>

definition existingWaypoints :: "jsval \<Rightarrow> jsval" where
  "existingWaypoints transaction =
     nullish (get (get transaction ''comment'') ''waypoints'') (JObj [])"

section \<open>The store\<close>

text \<open>
  Modelled from the spec: the reactive store (the library \<^verbatim>\<open>react-native-onyx\<close>) is not
  part of the sources. Section 6 of the specification gives its contract: \<^verbatim>\<open>set\<close> replaces
  the whole value of a key, \<^verbatim>\<open>merge\<close> is a deep structural merge of the patch into the
  value of the key. Two objects are merged property by property; any other patch value,
  \<^verbatim>\<open>null\<close> included, takes the place of the old one (the comment of \<open>removeWaypoint\<close>
  records that a merge does not remove a nested \<^verbatim>\<open>null\<close>).
\<close>

fun merge_value :: "jsval \<Rightarrow> jsval \<Rightarrow> jsval"
  and merge_fields ::
    "(string \<times> jsval) list \<Rightarrow> (string \<times> jsval) list \<Rightarrow> (string \<times> jsval) list" where
  "merge_value old (JObj patch) =
     (case old of JObj fs \<Rightarrow> JObj (merge_fields fs patch) | _ \<Rightarrow> JObj patch)"
| "merge_value old JUndefined = JUndefined"
| "merge_value old JNull = JNull"
| "merge_value old (JBool b) = JBool b"
| "merge_value old (JNum n) = JNum n"
| "merge_value old (JStr s) = JStr s"
| "merge_value old (JArr xs) = JArr xs"
| "merge_fields fs [] = fs"
| "merge_fields fs ((k, v) # patch) =
     merge_fields
       (AList.update k (case map_of fs k of Some old \<Rightarrow> merge_value old v | None \<Rightarrow> v) fs)
       patch"

type_synonym onyx_store = "string \<rightharpoonup> jsval"

text \<open>Modelled from the spec: the effect of one call on the store (section 6).\<close>

fun onyx_apply :: "onyx_store \<Rightarrow> onyx_call \<Rightarrow> onyx_store" where
  "onyx_apply s (Set k v) = s(k \<mapsto> v)"
| "onyx_apply s (Merge k v) =
     s(k \<mapsto> (case s k of Some old \<Rightarrow> merge_value old v | None \<Rightarrow> v))"

definition onyx_run :: "onyx_store \<Rightarrow> onyx_call list \<Rightarrow> onyx_store" where
  "onyx_run s calls = foldl onyx_apply s calls"

text \<open>The waypoints of the record stored under a key.\<close>

definition stored_waypoints :: "onyx_store \<Rightarrow> string \<Rightarrow> jsval" where
  "stored_waypoints s k =
     (case s k of Some t \<Rightarrow> get (get t ''comment'') ''waypoints'' | None \<Rightarrow> JUndefined)"

section \<open>Reading the calls\<close>

text \<open>
  The value that \<open>saveWaypoint\<close> merges into the transaction (lines 61 to 80): the
  waypoint under its key, the route error and the route coordinates set to \<^verbatim>\<open>null\<close>.
\<close>

definition waypoint_patch :: "string \<Rightarrow> jsval \<Rightarrow> jsval" where
  "waypoint_patch index waypoint =
     JObj [(''comment'', JObj [(''waypoints'', JObj [(''waypoint'' @ index, waypoint)])]),
           (''errorFields'', JObj [(''route'', JNull)]),
           (''routes'',
              JObj [(''route0'', JObj [(''geometry'', JObj [(''coordinates'', JNull)])])])]"

text \<open>The third argument of an \<^verbatim>\<open>API.read\<close>.\<close>

definition request_data :: "api_call \<Rightarrow> onyx_data" where
  "request_data c = (case c of API_read command parameters onyxData \<Rightarrow> onyxData)"

text \<open>The record stored under a key, \<^verbatim>\<open>undefined\<close> when there is none.\<close>

definition stored :: "onyx_store \<Rightarrow> string \<Rightarrow> jsval" where
  "stored s k = (case s k of Some t \<Rightarrow> t | None \<Rightarrow> JUndefined)"

section \<open>Sample data\<close>

text \<open>
  An instance of the parameters and three transactions, on which the theorems below are
  run. The sample predicate takes an address to be valid when it is a non-empty string.
\<close>

definition sample_externals :: externals where
  "sample_externals =
     \<lparr>COLLECTION_TRANSACTION = ''transactions_'',
      COLLECTION_TRANSACTION_DRAFT = ''transactionsDraft_'',
      NVP_RECENT_WAYPOINTS = ''recentWaypoints'',
      YOUR_LOCATION_TEXT = ''Your location'',
      waypointHasValidAddress = (\<lambda>w. case get w ''address'' of JStr s \<Rightarrow> s \<noteq> [] | _ \<Rightarrow> False),
      JSON_stringify = (\<lambda>v. ''{}''),
      ToString = (\<lambda>v. ''[object Object]'')\<rparr>"

definition stop :: "string \<Rightarrow> jsval" where
  "stop a = JObj [(''address'', JStr a), (''lat'', JNum (Fin 1)), (''lng'', JNum (Fin 2))]"

definition trip2 :: jsval where
  "trip2 =
     JObj [(''transactionID'', JStr ''t2''),
           (''comment'',
            JObj [(''waypoints'', JObj [(''waypoint0'', stop ''A''), (''waypoint1'', stop ''B'')])])]"

definition trip3 :: jsval where
  "trip3 =
     JObj [(''transactionID'', JStr ''t3''),
           (''amount'', JNum (Fin 1200)),
           (''comment'',
            JObj [(''comment'', JStr ''fuel''),
                  (''waypoints'',
                   JObj [(''waypoint0'', stop ''A''), (''waypoint1'', stop ''B''),
                         (''waypoint2'', stop ''C'')])]),
           (''errorFields'', JObj [(''route'', JStr ''no route'')]),
           (''routes'', JObj [(''route0'', JObj [(''distance'', JNum (Fin 7))])])]"

definition trip3_empty_stop :: jsval where
  "trip3_empty_stop =
     JObj [(''transactionID'', JStr ''t4''),
           (''comment'',
            JObj [(''waypoints'',
                   JObj [(''waypoint0'', stop ''A''), (''waypoint1'', JObj []),
                         (''waypoint2'', stop ''C'')])]),
           (''errorFields'', JObj [(''route'', JStr ''no route'')]),
           (''routes'', JObj [(''route0'', JObj [(''distance'', JNum (Fin 7))])])]"

section \<open>Auxiliary facts\<close>

subsection \<open>Waypoint keys\<close>

lemma digit_char_inj: "a < 10 \<Longrightarrow> b < 10 \<Longrightarrow> digit_char a = digit_char b \<Longrightarrow> a = b"
  unfolding digit_char_def using nth_eq_iff_index_eq [of "''0123456789''" a b] by simp

lemma show_nat_nonempty: "show_nat n \<noteq> []"
  by (subst show_nat.simps) simp

lemma show_nat_single: "length (show_nat n) = 1 \<longleftrightarrow> n < 10"
proof (cases "n < 10")
  case True
  then show ?thesis by (subst show_nat.simps) simp
next
  case False
  have "length (show_nat n) = Suc (length (show_nat (n div 10)))"
    using False by (subst show_nat.simps) simp
  moreover have "length (show_nat (n div 10)) \<noteq> 0"
    using show_nat_nonempty by simp
  ultimately show ?thesis using False by simp
qed

lemma show_nat_inj: "show_nat n = show_nat m \<Longrightarrow> n = m"
proof (induction n arbitrary: m rule: show_nat.induct)
  case (1 n)
  show ?case
  proof (cases "n < 10")
    case True
    then have "length (show_nat m) = 1" using "1.prems" show_nat_single [of n] by simp
    then have m: "m < 10" using show_nat_single [of m] by simp
    have "[digit_char n] = [digit_char m]"
      using "1.prems" True m show_nat.simps [of n] show_nat.simps [of m] by simp
    then show ?thesis using True m digit_char_inj by simp
  next
    case False
    then have "length (show_nat m) \<noteq> 1" using "1.prems" show_nat_single [of n] by simp
    then have m: "\<not> m < 10" using show_nat_single [of m] by simp
    have "show_nat (n div 10) @ [digit_char (n mod 10)] = show_nat (m div 10) @ [digit_char (m mod 10)]"
      using "1.prems" False m show_nat.simps [of n] show_nat.simps [of m] by simp
    then have a: "show_nat (n div 10) = show_nat (m div 10)" and b: "digit_char (n mod 10) = digit_char (m mod 10)"
      by simp_all
    have "n div 10 = m div 10" using "1.IH" [OF False a] .
    moreover have "n mod 10 = m mod 10" using b digit_char_inj [of "n mod 10" "m mod 10"] by simp
    ultimately show ?thesis by (metis div_mult_mod_eq)
  qed
qed

lemma waypointKey_inj: "waypointKey i = waypointKey j \<longleftrightarrow> i = j"
  using show_nat_inj by (auto simp: waypointKey_def)

lemma distinct_waypointKeys: "distinct (map waypointKey [i..<j])"
  by (simp add: distinct_map inj_on_def waypointKey_inj)

lemma update_fresh: "k \<notin> fst ` set al \<Longrightarrow> AList.update k v al = al @ [(k, v)]"
  by (induction al) auto

lemma reIndex_zip:
  "length vs = i \<Longrightarrow>
   reIndex i ws (zip (map waypointKey [0..<i]) vs) = zip (map waypointKey [0..<i + length ws]) (vs @ ws)"
proof (induction ws arbitrary: i vs)
  case Nil
  then show ?case by simp
next
  case (Cons w ws)
  have fresh: "waypointKey i \<notin> fst ` set (zip (map waypointKey [0..<i]) vs)"
  proof
    assume "waypointKey i \<in> fst ` set (zip (map waypointKey [0..<i]) vs)"
    then have "waypointKey i \<in> set (map waypointKey [0..<i])"
      using Cons.prems by (metis length_map length_upt map_fst_zip minus_nat.diff_0 set_map)
    then show False by (auto simp: waypointKey_inj)
  qed
  have step: "AList.update (waypointKey i) w (zip (map waypointKey [0..<i]) vs)
      = zip (map waypointKey [0..<Suc i]) (vs @ [w])"
    using Cons.prems by (simp add: update_fresh [OF fresh])
  have "reIndex (Suc i) ws (zip (map waypointKey [0..<Suc i]) (vs @ [w]))
      = zip (map waypointKey [0..<Suc i + length ws]) ((vs @ [w]) @ ws)"
    using Cons.prems by (intro Cons.IH) simp
  then show ?case using step by simp
qed

lemma reIndex_zero: "reIndex 0 ws [] = zip (map waypointKey [0..<length ws]) ws"
  using reIndex_zip [of "[]" 0 ws] by simp


subsection \<open>splice\<close>

lemma splice_start_le: "splice_start idx len \<le> len"
  by (auto simp: splice_start_def Let_def split: js_number.splits)

lemma js_truncate_of_nat: "js_truncate (of_nat i) = int i"
  by (simp add: js_truncate_def)

lemma splice_start_nat: "splice_start (Fin (of_nat i)) len = min i len"
  by (simp add: splice_start_def js_truncate_of_nat Let_def)

lemma splice_start_NaN: "splice_start NaN len = 0"
  by (simp add: splice_start_def)

lemma splice_remove_one:
  assumes "splice_start idx (length xs) = a" and "a < length xs"
  shows "splice idx 1 [] xs = ([xs ! a], take a xs @ drop (Suc a) xs)"
proof -
  have "take 1 (drop a xs) = [xs ! a]"
    using assms(2) by (simp add: take_Suc_conv_app_nth hd_drop_conv_nth take_Suc)
  moreover have "min 1 (length xs - a) = 1" using assms(2) by simp
  ultimately show ?thesis using assms(1) by (simp add: splice_def Let_def)
qed

lemma splice_remove_none:
  assumes "length xs \<le> splice_start idx (length xs)"
  shows "fst (splice idx 1 [] xs) = []"
  using assms by (simp add: splice_def Let_def)

lemma splice_removed_empty_iff:
  "fst (splice idx 1 [] xs) = [] \<longleftrightarrow> length xs \<le> splice_start idx (length xs)"
  by (auto simp: splice_def Let_def min_def)

lemma splice_start_ge_iff:
  "len \<le> splice_start idx len \<longleftrightarrow>
     len = 0 \<or> idx = PosInf \<or> (\<exists>r. idx = Fin r \<and> int len \<le> js_truncate r)"
  by (cases idx) (auto simp: splice_start_def Let_def)

lemma splice_insert:
  "splice idx 0 items xs =
     (let a = splice_start idx (length xs) in ([], take a xs @ items @ drop a xs))"
  by (simp add: splice_def Let_def)

subsection \<open>assign\<close>

lemma assign_Nil: "assign fs [] = fs"
  by (simp add: assign_def)

lemma assign_Cons: "assign fs ((k, v) # kvs) = assign (AList.update k v fs) kvs"
  by (simp add: assign_def)

lemma map_of_assign: "map_of (assign fs kvs) = map_of fs ++ map_of (rev kvs)"
proof (induction kvs arbitrary: fs)
  case Nil
  then show ?case by (simp add: assign_Nil)
next
  case (Cons kv kvs)
  obtain k v where kv: "kv = (k, v)" by (cases kv)
  show ?case
    unfolding kv assign_Cons Cons.IH
    by (rule ext) (simp add: map_add_def update_conv' split: option.splits)
qed

lemma get_assign:
  "get (JObj (assign fs kvs)) k =
     (case map_of (rev kvs) k of Some v \<Rightarrow> v | None \<Rightarrow> get (JObj fs) k)"
  by (simp add: map_of_assign map_add_def split: option.splits)

lemma length_Object_keys: "length (Object_keys v) = length (Object_values v)"
  by (simp add: Object_keys_def Object_values_def)


subsection \<open>removeWaypoint\<close>

lemma removeWaypoint_early:
  assumes "Object_values (existingWaypoints t) = ws"
    and "length ws \<le> splice_start (Number ci) (length ws)"
  shows "removeWaypoint X t ci d = []"
proof -
  have "fst (splice (Number ci) 1 [] ws) = []"
    using assms(2) by (rule splice_remove_none)
  then show ?thesis
    using assms(1)
    by (auto simp: removeWaypoint_def existingWaypoints_def Let_def split: prod.splits)
qed

lemma removeWaypoint_write:
  assumes ws: "Object_values (existingWaypoints t) = ws"
    and a: "splice_start (Number ci) (length ws) = a" "a < length ws"
  shows "removeWaypoint X t ci d =
    [Set ((if d then COLLECTION_TRANSACTION_DRAFT X else COLLECTION_TRANSACTION X)
            @ template X (get t ''transactionID''))
       (JObj
         (let kept = take a ws @ drop (Suc a) ws;
              waypointValues =
                (if length ws = 2 \<and> (Number ci = Fin 0 \<or> Number ci = Fin 1)
                 then snd (splice (Number ci) 0 [JObj []] kept) else kept);
              newTransaction = rebuilt t (reIndex 0 waypointValues [])
          in if waypointHasValidAddress X (nullish (ws ! a) (JObj []))
             then assign newTransaction
                    [(''errorFields'', JObj [(''route'', JNull)]),
                     (''routes'',
                        JObj [(''route0'',
                           JObj [(''distance'', JNull),
                                 (''geometry'', JObj [(''coordinates'', JNull)])])])]
             else newTransaction))]"
proof -
  have sp: "splice (Number ci) 1 [] ws = ([ws ! a], take a ws @ drop (Suc a) ws)"
    using a by (rule splice_remove_one)
  have len: "length (Object_keys (existingWaypoints t)) = length ws"
    using ws by (simp add: length_Object_keys)
  show ?thesis
    using ws len sp
    by (auto simp: removeWaypoint_def existingWaypoints_def [symmetric] Let_def)
qed



subsection \<open>The rebuilt transaction\<close>

lemma distinct_defaulted: "distinct (''comment'' # map fst defaulted)"
  by (simp add: defaulted_def)

lemma rebuilt_keys:
  "map fst (map (\<lambda>(k, d). (k, f k d)) ds) = map fst ds"
  by (simp add: case_prod_beta)

lemma map_of_assigned:
  assumes "distinct (c # map fst ds)" and "(k, dflt) \<in> set ds"
  shows "map_of (rev (map (\<lambda>(k, d). (k, f k d)) ds @ [(c, x)])) k = Some (f k dflt)"
proof -
  let ?kvs = "map (\<lambda>(k, d). (k, f k d)) ds"
  have "map fst (rev (?kvs @ [(c, x)])) = rev (map fst (?kvs @ [(c, x)]))"
    by (simp only: rev_map)
  also have "map fst (?kvs @ [(c, x)]) = map fst ds @ [c]"
    unfolding map_append rebuilt_keys by simp
  finally have "distinct (map fst (rev (?kvs @ [(c, x)])))"
    using assms(1) by simp
  moreover have "(k, f k dflt) \<in> set (rev (?kvs @ [(c, x)]))"
    using assms(2) by (auto simp: image_iff intro!: bexI [of _ "(k, dflt)"])
  ultimately show ?thesis
    by (simp only: map_of_eq_Some_iff)
qed

lemma get_rebuilt_defaulted:
  assumes "(k, dflt) \<in> set defaulted"
  shows "get (JObj (rebuilt t re)) k = nullish (get t k) dflt"
  unfolding rebuilt_def get_assign
  using map_of_assigned [OF distinct_defaulted assms, of "\<lambda>k d. nullish (get t k) d"]
  by simp

lemma get_rebuilt_comment:
  "get (JObj (rebuilt t re)) ''comment'' =
     JObj (assign (own_entries (get t ''comment'')) [(''waypoints'', JObj re)])"
  unfolding rebuilt_def get_assign
  by (simp add: defaulted_def)

lemma waypoints_rebuilt: "get (get (JObj (rebuilt t re)) ''comment'') ''waypoints'' = JObj re"
  unfolding get_rebuilt_comment get_assign by simp

lemma get_rebuilt_other:
  assumes "k \<notin> fst ` set defaulted" and "k \<noteq> ''comment''"
  shows "get (JObj (rebuilt t re)) k = get (JObj (own_entries t)) k"
proof -
  have "map_of (rev (map (\<lambda>(k, d). (k, nullish (get t k) d)) defaulted @ [(''comment'', c)])) k = None"
    for c
    using assms by (force simp: map_of_eq_None_iff)
  then show ?thesis unfolding rebuilt_def get_assign by simp
qed

lemma get_defined_obj: "get v k \<noteq> JUndefined \<Longrightarrow> \<exists>fs. v = JObj fs"
  by (cases v) simp_all

lemma existingWaypoints_nonempty:
  assumes "Object_values (existingWaypoints t) \<noteq> []"
  shows "\<exists>fs cs. t = JObj fs \<and> get t ''comment'' = JObj cs"
proof -
  have "get (get t ''comment'') ''waypoints'' \<noteq> JUndefined"
    using assms by (auto simp: existingWaypoints_def nullish_def Object_values_def)
  then obtain cs where cs: "get t ''comment'' = JObj cs"
    using get_defined_obj by blast
  then have "get t ''comment'' \<noteq> JUndefined" by simp
  then obtain fs where "t = JObj fs" using get_defined_obj by blast
  then show ?thesis using cs by blast
qed

lemma get_cleared_comment:
  "get (JObj (assign nt [(''errorFields'', e), (''routes'', r)])) ''comment'' = get (JObj nt) ''comment''"
  unfolding get_assign by simp

lemma removeWaypoint_written_waypoints:
  assumes ws: "Object_values (existingWaypoints t) = ws"
    and a: "splice_start (Number ci) (length ws) = a" "a < length ws"
  shows "\<exists>key tx. removeWaypoint X t ci d = [Set key tx] \<and>
    get (get tx ''comment'') ''waypoints'' =
      JObj (let kept = take a ws @ drop (Suc a) ws;
                waypointValues =
                  (if length ws = 2 \<and> (Number ci = Fin 0 \<or> Number ci = Fin 1)
                   then snd (splice (Number ci) 0 [JObj []] kept) else kept)
            in zip (map waypointKey [0..<length waypointValues]) waypointValues)"
  unfolding removeWaypoint_write [OF assms]
  by (simp add: Let_def get_cleared_comment waypoints_rebuilt reIndex_zero del: get.simps)

lemma reinsert_two:
  assumes "length ws = 2" and "i < 2"
  shows "snd (splice (Fin (of_nat i)) 0 [e] (take i ws @ drop (Suc i) ws)) = ws[i := e]"
proof -
  obtain A B where ws: "ws = [A, B]"
    using assms(1) by (cases ws; cases "tl ws"; cases "tl (tl ws)") auto
  have "i = 0 \<or> i = 1" using assms(2) by auto
  then show ?thesis
    by (auto simp: ws splice_insert splice_start_nat Let_def)
qed

lemma zipped_keys:
  "Object_keys (JObj (zip (map waypointKey [0..<length vs]) vs)) = map waypointKey [0..<length vs]"
  "Object_values (JObj (zip (map waypointKey [0..<length vs]) vs)) = vs"
  by (simp_all add: Object_keys_def Object_values_def)

subsection \<open>Sample evaluations\<close>

lemma Number_samples:
  "Number ''0'' = Fin 0" "Number ''1'' = Fin 1" "Number ''3'' = Fin 3" "Number ''abc'' = NaN"
  by (simp_all add: Number_def trim_def is_ws_def StrUnsignedDecimalLiteral_def is_digit_def
      hex_digit_def)

lemma waypointKey_samples:
  "waypointKey 0 = ''waypoint0''" "waypointKey 1 = ''waypoint1''" "waypointKey 2 = ''waypoint2''"
  "waypointKey 3 = ''waypoint3''" "waypointKey (Suc 0) = ''waypoint1''"
  by (simp_all add: waypointKey_def show_nat.simps digit_char_def)

lemma sample_waypoints:
  "Object_values (existingWaypoints trip3) = [stop ''A'', stop ''B'', stop ''C'']"
  "Object_values (existingWaypoints trip2) = [stop ''A'', stop ''B'']"
  "Object_values (existingWaypoints trip3_empty_stop) = [stop ''A'', JObj [], stop ''C'']"
  by (simp_all add: existingWaypoints_def trip3_def trip2_def trip3_empty_stop_def nullish_def
      Object_values_def)

section \<open>Removing a waypoint\<close>

lemma removeWaypoint_in_range:
  assumes "Object_values (existingWaypoints t) = ws"
    and "Number ci = Fin (of_nat i)" and "i < length ws"
  shows "\<exists>key tx. removeWaypoint X t ci d = [Set key tx] \<and>
    get (get tx ''comment'') ''waypoints'' =
      JObj (let kept = (if length ws = 2 then ws[i := JObj []] else take i ws @ drop (Suc i) ws)
            in zip (map waypointKey [0..<length kept]) kept)"
proof -
  have a: "splice_start (Number ci) (length ws) = i"
    using assms(2,3) by (simp add: splice_start_nat)
  obtain key tx where w: "removeWaypoint X t ci d = [Set key tx]"
    and wp: "get (get tx ''comment'') ''waypoints'' =
      JObj (let kept = take i ws @ drop (Suc i) ws;
                waypointValues =
                  (if length ws = 2 \<and> (Number ci = Fin 0 \<or> Number ci = Fin 1)
                   then snd (splice (Number ci) 0 [JObj []] kept) else kept)
            in zip (map waypointKey [0..<length waypointValues]) waypointValues)"
    using removeWaypoint_written_waypoints [OF assms(1) a assms(3)] by blast
  let ?kept = "if length ws = 2 then ws[i := JObj []] else take i ws @ drop (Suc i) ws"
  have "get (get tx ''comment'') ''waypoints'' = JObj (zip (map waypointKey [0..<length ?kept]) ?kept)"
  proof (cases "length ws = 2")
    case True
    then have i: "i < 2" using assms(3) by simp
    then have "i = 0 \<or> i = 1" by auto
    then have "Number ci = Fin 0 \<or> Number ci = Fin 1" using assms(2) by auto
    then show ?thesis
      unfolding wp using True reinsert_two [OF True i, of "JObj []"] assms(2)
      by (simp add: Let_def)
  next
    case False
    then show ?thesis unfolding wp by (simp add: Let_def)
  qed
  then show ?thesis
    using w by (simp add: Let_def del: get.simps)
qed

text \<open>
  Claim C3. When the transaction has exactly two waypoints and the index is 0 or 1,
  \<open>removeWaypoint\<close> writes two waypoints again: an empty one at the removed position
  and the other former waypoint at the other position.
\<close>

theorem removeWaypoint_two_stops:
  assumes "own_entries (existingWaypoints t) = [(k0, A), (k1, B)]"
    and "Number ci = Fin 0 \<or> Number ci = Fin 1"
  shows "\<exists>key tx. removeWaypoint X t ci d = [Set key tx] \<and>
    get (get tx ''comment'') ''waypoints'' =
      JObj (if Number ci = Fin 0
            then [(''waypoint0'', JObj []), (''waypoint1'', B)]
            else [(''waypoint0'', A), (''waypoint1'', JObj [])])"
proof -
  have ws: "Object_values (existingWaypoints t) = [A, B]"
    using assms(1) by (simp add: Object_values_def)
  show ?thesis
  proof (cases "Number ci = Fin 0")
    case True
    then have n: "Number ci = Fin (of_nat 0)" by simp
    show ?thesis
      using removeWaypoint_in_range [OF ws n, of X d] True
      by (simp add: Let_def waypointKey_samples del: get.simps)
  next
    case False
    then have n: "Number ci = Fin (of_nat 1)" using assms(2) by simp
    have "Number ci \<noteq> Fin 0" using False .
    then show ?thesis
      using removeWaypoint_in_range [OF ws n, of X d]
      by (simp add: Let_def waypointKey_samples del: get.simps)
  qed
qed

theorem removeWaypoint_two_stops_witness:
  "own_entries (existingWaypoints trip2) = [(''waypoint0'', stop ''A''), (''waypoint1'', stop ''B'')] \<and>
   Number ''0'' = Fin 0 \<and>
   (\<exists>key tx. removeWaypoint sample_externals trip2 ''0'' False = [Set key tx] \<and>
      get (get tx ''comment'') ''waypoints'' =
        JObj [(''waypoint0'', JObj []), (''waypoint1'', stop ''B'')])"
proof -
  have h1: "own_entries (existingWaypoints trip2) = [(''waypoint0'', stop ''A''), (''waypoint1'', stop ''B'')]"
    by (simp add: existingWaypoints_def trip2_def nullish_def)
  have h2: "Number ''0'' = Fin 0 \<or> Number ''0'' = Fin 1"
    by (simp add: Number_samples)
  show ?thesis
    using h1 removeWaypoint_two_stops [OF h1 h2, of sample_externals False]
    by (simp add: Number_samples del: get.simps)
qed

text \<open>
  Claim C4. For a removal index \<open>i\<close> in range, the waypoints that \<open>removeWaypoint\<close>
  writes have exactly the keys \<open>waypoint0\<close> to \<open>waypoint(k-1)\<close> for their \<open>k\<close>
  entries, all distinct, and their values are the former ones without the one at \<open>i\<close>,
  in the former order. A transaction of two waypoints gets an empty waypoint back at
  \<open>i\<close>; with three waypoints and the middle index the two outer ones are written and
  nothing is put back.
\<close>

theorem removeWaypoint_reindexes:
  assumes "Object_values (existingWaypoints t) = ws"
    and "Number ci = Fin (of_nat i)" and "i < length ws"
  shows "\<exists>key tx. removeWaypoint X t ci d = [Set key tx] \<and>
    (let kept = (if length ws = 2 then ws[i := JObj []] else take i ws @ drop (Suc i) ws);
         written = get (get tx ''comment'') ''waypoints''
     in Object_keys written = map waypointKey [0..<length kept] \<and>
        Object_values written = kept \<and>
        distinct (Object_keys written))"
proof -
  let ?kept = "if length ws = 2 then ws[i := JObj []] else take i ws @ drop (Suc i) ws"
  obtain key tx where w: "removeWaypoint X t ci d = [Set key tx]"
    and wp: "get (get tx ''comment'') ''waypoints'' = JObj (zip (map waypointKey [0..<length ?kept]) ?kept)"
    using removeWaypoint_in_range [OF assms, of X d] by (auto simp: Let_def simp del: get.simps)
  show ?thesis
    using w wp zipped_keys [of ?kept] distinct_waypointKeys [of 0 "length ?kept"]
    by (simp add: Let_def del: get.simps)
qed

theorem removeWaypoint_reindexes_witness:
  "Object_values (existingWaypoints trip3) = [stop ''A'', stop ''B'', stop ''C''] \<and>
   Number ''1'' = Fin (of_nat 1) \<and>
   (\<exists>key tx. removeWaypoint sample_externals trip3 ''1'' False = [Set key tx] \<and>
      Object_keys (get (get tx ''comment'') ''waypoints'') = [''waypoint0'', ''waypoint1''] \<and>
      Object_values (get (get tx ''comment'') ''waypoints'') = [stop ''A'', stop ''C''])"
proof -
  have h1: "Object_values (existingWaypoints trip3) = [stop ''A'', stop ''B'', stop ''C'']"
    by (rule sample_waypoints)
  have h2: "Number ''1'' = Fin (of_nat 1)"
    by (simp add: Number_samples)
  have h3: "1 < length [stop ''A'', stop ''B'', stop ''C'']" by simp
  show ?thesis
    using h1 h2 removeWaypoint_reindexes [OF h1 h2 h3, of sample_externals False]
    by (auto simp add: Let_def waypointKey_samples simp del: get.simps)
qed

text \<open>
  Claim C9. When the splice at the index removes nothing, \<open>removeWaypoint\<close> returns
  without a call of the store, so that the store stays as it is. The splice removes
  nothing exactly when there is no waypoint at all, or the index is \<open>+Infinity\<close>, or
  the index truncates to an integer that is at least the number of waypoints.
\<close>

theorem removeWaypoint_nothing_to_remove:
  assumes "Object_values (existingWaypoints t) = ws"
  shows "(fst (splice (Number ci) 1 [] ws) = [] \<longrightarrow>
            removeWaypoint X t ci d = [] \<and> onyx_run s (removeWaypoint X t ci d) = s) \<and>
         (fst (splice (Number ci) 1 [] ws) = [] \<longleftrightarrow>
            ws = [] \<or> Number ci = PosInf \<or>
            (\<exists>r. Number ci = Fin r \<and> int (length ws) \<le> js_truncate r))"
proof -
  have "removeWaypoint X t ci d = []" if h: "fst (splice (Number ci) 1 [] ws) = []"
  proof -
    have "length ws \<le> splice_start (Number ci) (length ws)"
      using h unfolding splice_removed_empty_iff .
    then show ?thesis by (rule removeWaypoint_early [OF assms])
  qed
  moreover have "onyx_run s [] = s" by (simp add: onyx_run_def)
  moreover have "fst (splice (Number ci) 1 [] ws) = [] \<longleftrightarrow>
      ws = [] \<or> Number ci = PosInf \<or> (\<exists>r. Number ci = Fin r \<and> int (length ws) \<le> js_truncate r)"
    unfolding splice_removed_empty_iff splice_start_ge_iff by simp
  ultimately show ?thesis by simp
qed

theorem removeWaypoint_nothing_to_remove_witness:
  "Object_values (existingWaypoints trip3) = [stop ''A'', stop ''B'', stop ''C''] \<and>
   fst (splice (Number ''3'') 1 [] [stop ''A'', stop ''B'', stop ''C'']) = [] \<and>
   removeWaypoint sample_externals trip3 ''3'' False = [] \<and>
   onyx_run Map.empty (removeWaypoint sample_externals trip3 ''3'' False) = Map.empty"
proof -
  have h1: "Object_values (existingWaypoints trip3) = [stop ''A'', stop ''B'', stop ''C'']"
    by (rule sample_waypoints)
  have h2: "fst (splice (Number ''3'') 1 [] [stop ''A'', stop ''B'', stop ''C'']) = []"
    by (simp add: Number_samples splice_def splice_start_def js_truncate_def Let_def)
  show ?thesis
    using h1 h2 removeWaypoint_nothing_to_remove [OF h1, of "''3''" sample_externals False Map.empty]
    by (simp add: onyx_run_def)
qed

text \<open>
  Claim C10. When \<open>Number(currentIndex)\<close> is \<open>NaN\<close> and the transaction has a
  waypoint, the splice starts at 0: \<open>removeWaypoint\<close> removes the first waypoint and
  writes the remaining ones, re-indexed from \<open>waypoint0\<close>.
\<close>

theorem removeWaypoint_NaN_index:
  assumes "Number ci = NaN"
    and "Object_values (existingWaypoints t) = w # ws"
  shows "\<exists>key tx. removeWaypoint X t ci d = [Set key tx] \<and>
    get (get tx ''comment'') ''waypoints'' = JObj (zip (map waypointKey [0..<length ws]) ws)"
proof -
  have a: "splice_start (Number ci) (length (w # ws)) = 0"
    using assms(1) by (simp add: splice_start_NaN)
  have lt: "0 < length (w # ws)" by simp
  show ?thesis
    using removeWaypoint_written_waypoints [OF assms(2) a lt, of X d] assms(1)
    by (simp add: Let_def del: get.simps)
qed

theorem removeWaypoint_NaN_index_witness:
  "Number ''abc'' = NaN \<and>
   Object_values (existingWaypoints trip3) = [stop ''A'', stop ''B'', stop ''C''] \<and>
   (\<exists>key tx. removeWaypoint sample_externals trip3 ''abc'' False = [Set key tx] \<and>
      get (get tx ''comment'') ''waypoints'' =
        JObj [(''waypoint0'', stop ''B''), (''waypoint1'', stop ''C'')])"
proof -
  have h1: "Number ''abc'' = NaN" by (rule Number_samples)
  have h2: "Object_values (existingWaypoints trip3) = stop ''A'' # [stop ''B'', stop ''C'']"
    by (simp add: sample_waypoints)
  show ?thesis
    using h1 h2 removeWaypoint_NaN_index [OF h1 h2, of sample_externals False]
    by (simp add: waypointKey_samples numeral_2_eq_2 del: get.simps)
qed

text \<open>
  Claim C7. Let \<open>removeWaypoint\<close> remove the waypoint at position \<open>a\<close>. If it has
  no valid address, the written transaction has the \<open>errorFields\<close> and the \<open>routes\<close>
  of the given one. If it has a valid address, the written \<open>errorFields\<close> is
  \<open>{route: null}\<close> and the written \<open>routes\<close> is
  \<open>{route0: {distance: null, geometry: {coordinates: null}}}\<close>. Each of the ten
  defaulted fields is the given value, or its default when the given value is
  \<^verbatim>\<open>undefined\<close> or \<^verbatim>\<open>null\<close>; every other field of the transaction, and every field of
  the comment but \<open>waypoints\<close>, is the given one.
\<close>

theorem removeWaypoint_frame:
  assumes ws: "Object_values (existingWaypoints t) = ws"
    and a: "splice_start (Number ci) (length ws) = a" "a < length ws"
  shows "\<exists>key tx. removeWaypoint X t ci d = [Set key tx] \<and>
    (if waypointHasValidAddress X (nullish (ws ! a) (JObj []))
     then get tx ''errorFields'' = JObj [(''route'', JNull)] \<and>
          get tx ''routes'' =
            JObj [(''route0'',
               JObj [(''distance'', JNull), (''geometry'', JObj [(''coordinates'', JNull)])])]
     else get tx ''errorFields'' = get t ''errorFields'' \<and>
          get tx ''routes'' = get t ''routes'') \<and>
    (\<forall>(k, dflt) \<in> set defaulted. get tx k = nullish (get t k) dflt) \<and>
    (\<forall>k. k \<notin> fst ` set defaulted \<union> {''comment'', ''errorFields'', ''routes''} \<longrightarrow>
         get tx k = get t k) \<and>
    (\<forall>k. k \<noteq> ''waypoints'' \<longrightarrow> get (get tx ''comment'') k = get (get t ''comment'') k)"
proof -
  have "Object_values (existingWaypoints t) \<noteq> []" using ws a(2) by auto
  then obtain fs cs where t: "t = JObj fs" and c: "get t ''comment'' = JObj cs"
    using existingWaypoints_nonempty by blast
  define re where "re = reIndex 0
     (let kept = take a ws @ drop (Suc a) ws
      in if length ws = 2 \<and> (Number ci = Fin 0 \<or> Number ci = Fin 1)
         then snd (splice (Number ci) 0 [JObj []] kept) else kept) []"
  define clear where "clear =
     [(''errorFields'', JObj [(''route'', JNull)]),
      (''routes'',
         JObj [(''route0'',
            JObj [(''distance'', JNull), (''geometry'', JObj [(''coordinates'', JNull)])])])]"
  define tx where "tx = JObj
     (if waypointHasValidAddress X (nullish (ws ! a) (JObj []))
      then assign (rebuilt t re) clear else rebuilt t re)"
  have w: "removeWaypoint X t ci d =
      [Set ((if d then COLLECTION_TRANSACTION_DRAFT X else COLLECTION_TRANSACTION X)
              @ template X (get t ''transactionID'')) tx]"
    unfolding removeWaypoint_write [OF assms] tx_def re_def clear_def by (simp add: Let_def)
  have other: "get (JObj (rebuilt t re)) k = get t k"
    if "k \<notin> fst ` set defaulted" "k \<noteq> ''comment''" for k
    using get_rebuilt_other [OF that, of t re] unfolding t own_entries.simps .
  have ne: "''errorFields'' \<notin> fst ` set defaulted" "''routes'' \<notin> fst ` set defaulted"
    by (simp_all add: defaulted_def)
  have p1: "if waypointHasValidAddress X (nullish (ws ! a) (JObj []))
     then get tx ''errorFields'' = JObj [(''route'', JNull)] \<and>
          get tx ''routes'' =
            JObj [(''route0'',
               JObj [(''distance'', JNull), (''geometry'', JObj [(''coordinates'', JNull)])])]
     else get tx ''errorFields'' = get t ''errorFields'' \<and>
          get tx ''routes'' = get t ''routes''"
  proof (cases "waypointHasValidAddress X (nullish (ws ! a) (JObj []))")
    case True
    then have "tx = JObj (assign (rebuilt t re) clear)" by (simp add: tx_def)
    then show ?thesis using True unfolding clear_def by (simp add: map_of_assign)
  next
    case False
    then have "tx = JObj (rebuilt t re)" by (simp add: tx_def)
    then show ?thesis using False other [OF ne(1)] other [OF ne(2)] by simp
  qed
  have p2: "get tx k = nullish (get t k) dflt" if "(k, dflt) \<in> set defaulted" for k dflt
  proof -
    have "k \<noteq> ''errorFields''" "k \<noteq> ''routes''"
      using that ne by (auto simp: image_iff)
    then have "get tx k = get (JObj (rebuilt t re)) k"
      unfolding tx_def clear_def by (simp add: get_assign del: get.simps)
    then show ?thesis using get_rebuilt_defaulted [OF that] by simp
  qed
  have p3: "get tx k = get t k"
    if "k \<notin> fst ` set defaulted \<union> {''comment'', ''errorFields'', ''routes''}" for k
  proof -
    have "get tx k = get (JObj (rebuilt t re)) k"
      using that unfolding tx_def clear_def by (simp add: get_assign del: get.simps)
    then show ?thesis using other [of k] that by simp
  qed
  have "get tx ''comment'' = get (JObj (rebuilt t re)) ''comment''"
    unfolding tx_def clear_def by (simp add: get_assign del: get.simps)
  then have p4: "get (get tx ''comment'') k = get (get t ''comment'') k" if "k \<noteq> ''waypoints''" for k
    using that unfolding get_rebuilt_comment c by (simp add: get_assign del: get.simps)
  show ?thesis
    using w p1 p2 p3 p4 by (intro exI conjI) (auto simp del: get.simps)
qed


theorem removeWaypoint_frame_witness:
  "Object_values (existingWaypoints trip3) = [stop ''A'', stop ''B'', stop ''C''] \<and>
   splice_start (Number ''1'') (length [stop ''A'', stop ''B'', stop ''C'']) = 1 \<and>
   (\<exists>key tx. removeWaypoint sample_externals trip3 ''1'' False = [Set key tx] \<and>
      get tx ''errorFields'' = JObj [(''route'', JNull)] \<and>
      get tx ''amount'' = JNum (Fin 1200) \<and>
      get tx ''billable'' = JBool False \<and>
      get (get tx ''comment'') ''comment'' = JStr ''fuel'') \<and>
   Object_values (existingWaypoints trip3_empty_stop) = [stop ''A'', JObj [], stop ''C''] \<and>
   (\<exists>key tx. removeWaypoint sample_externals trip3_empty_stop ''1'' False = [Set key tx] \<and>
      get tx ''errorFields'' = JObj [(''route'', JStr ''no route'')] \<and>
      get tx ''routes'' = JObj [(''route0'', JObj [(''distance'', JNum (Fin 7))])])"
proof -
  have h1: "Object_values (existingWaypoints trip3) = [stop ''A'', stop ''B'', stop ''C'']"
    by (rule sample_waypoints)
  have h2: "splice_start (Number ''1'') (length [stop ''A'', stop ''B'', stop ''C'']) = 1"
    by (simp add: Number_samples splice_start_def js_truncate_def)
  have h3: "(1::nat) < length [stop ''A'', stop ''B'', stop ''C'']" by simp
  have g1: "Object_values (existingWaypoints trip3_empty_stop) = [stop ''A'', JObj [], stop ''C'']"
    by (rule sample_waypoints)
  have g2: "splice_start (Number ''1'') (length [stop ''A'', JObj [], stop ''C'']) = 1"
    by (simp add: Number_samples splice_start_def js_truncate_def)
  have g3: "(1::nat) < length [stop ''A'', JObj [], stop ''C'']" by simp
  have v1: "waypointHasValidAddress sample_externals (nullish ([stop ''A'', stop ''B'', stop ''C''] ! 1) (JObj []))"
    by (simp add: sample_externals_def stop_def nullish_def)
  have v2: "\<not> waypointHasValidAddress sample_externals (nullish ([stop ''A'', JObj [], stop ''C''] ! 1) (JObj []))"
    by (simp add: sample_externals_def nullish_def)
  have a: "get trip3 ''amount'' = JNum (Fin 1200)" "get trip3 ''billable'' = JUndefined"
    "get (get trip3 ''comment'') ''comment'' = JStr ''fuel''"
    by (simp_all add: trip3_def)
  have b: "get trip3_empty_stop ''errorFields'' = JObj [(''route'', JStr ''no route'')]"
    "get trip3_empty_stop ''routes'' = JObj [(''route0'', JObj [(''distance'', JNum (Fin 7))])]"
    by (simp_all add: trip3_empty_stop_def)
  have first: "\<exists>key tx. removeWaypoint sample_externals trip3 ''1'' False = [Set key tx] \<and>
      get tx ''errorFields'' = JObj [(''route'', JNull)] \<and>
      get tx ''amount'' = JNum (Fin 1200) \<and>
      get tx ''billable'' = JBool False \<and>
      get (get tx ''comment'') ''comment'' = JStr ''fuel''"
    using removeWaypoint_frame [OF h1 h2 h3, of sample_externals False] v1 a
    by (auto simp: defaulted_def nullish_def simp del: get.simps)
  have second: "\<exists>key tx. removeWaypoint sample_externals trip3_empty_stop ''1'' False = [Set key tx] \<and>
      get tx ''errorFields'' = JObj [(''route'', JStr ''no route'')] \<and>
      get tx ''routes'' = JObj [(''route0'', JObj [(''distance'', JNum (Fin 7))])]"
    using removeWaypoint_frame [OF g1 g2 g3, of sample_externals False] v2 b
    by (auto simp del: get.simps)
  show ?thesis using h1 h2 g1 first second by blast
qed

section \<open>Saving a waypoint\<close>

text \<open>
  Claim C1. The first call of \<open>saveWaypoint\<close> merges the waypoint under the key
  \<open>waypoint\<close> followed by the index, \<open>errorFields.route = null\<close> and
  \<open>routes.route0.geometry.coordinates = null\<close>, into the committed transaction when
  \<open>isDraft\<close> is true and into the draft transaction when it is false. That is the key
  \<open>updateWaypoints\<close> takes for the opposite flag, and, the two collection prefixes being
  different, not the key that the flag names.
\<close>

theorem saveWaypoint_key_inverted:
  "(\<exists>rest. saveWaypoint X recentWaypoints transactionID index waypoint isDraft =
      Merge ((if isDraft then COLLECTION_TRANSACTION X else COLLECTION_TRANSACTION_DRAFT X)
               @ transactionID)
        (waypoint_patch index waypoint) # rest) \<and>
   call_key (hd (saveWaypoint X recentWaypoints transactionID index waypoint isDraft)) =
     call_key (updateWaypoints X transactionID waypoints (\<not> isDraft)) \<and>
   (COLLECTION_TRANSACTION X \<noteq> COLLECTION_TRANSACTION_DRAFT X \<longrightarrow>
      call_key (hd (saveWaypoint X recentWaypoints transactionID index waypoint isDraft)) \<noteq>
      (if isDraft then COLLECTION_TRANSACTION_DRAFT X else COLLECTION_TRANSACTION X)
        @ transactionID)"
  by (auto simp: saveWaypoint_def waypoint_patch_def updateWaypoints_def Let_def)

theorem saveWaypoint_key_inverted_witness:
  "COLLECTION_TRANSACTION sample_externals \<noteq> COLLECTION_TRANSACTION_DRAFT sample_externals \<and>
   call_key (hd (saveWaypoint sample_externals [] ''t1'' ''0'' (stop ''A'') True)) = ''transactions_t1'' \<and>
   call_key (hd (saveWaypoint sample_externals [] ''t1'' ''0'' (stop ''A'') False)) = ''transactionsDraft_t1''"
proof -
  have h: "COLLECTION_TRANSACTION sample_externals \<noteq> COLLECTION_TRANSACTION_DRAFT sample_externals"
    by (simp add: sample_externals_def)
  have k: "COLLECTION_TRANSACTION sample_externals = ''transactions_''"
    "COLLECTION_TRANSACTION_DRAFT sample_externals = ''transactionsDraft_''"
    by (simp_all add: sample_externals_def)
  show ?thesis
    using h saveWaypoint_key_inverted [of sample_externals "[]" "''t1''" "''0''" "stop ''A''" True "JObj []"]
      saveWaypoint_key_inverted [of sample_externals "[]" "''t1''" "''0''" "stop ''A''" False "JObj []"]
    by (auto simp: k)
qed

subsection \<open>The recent waypoints\<close>

lemma array_find_none: "\<forall>x\<in>set xs. \<not> p x \<Longrightarrow> array_find p xs = JUndefined"
  by (induction xs) (auto simp: array_find_def)

lemma array_find_some: "\<exists>x\<in>set xs. p x \<Longrightarrow> array_find p xs \<in> set xs"
  by (induction xs) (auto simp: array_find_def)

lemma merge_value_undefined: "merge_value JUndefined v = v"
  by (cases v) simp_all

lemma stored_after_merge: "stored (onyx_apply s (Merge k v)) k = merge_value (stored s k) v"
  by (simp add: stored_def merge_value_undefined split: option.splits)

lemma stored_after_other: "k' \<noteq> call_key c \<Longrightarrow> stored (onyx_apply s c) k' = stored s k'"
  by (cases c) (simp_all add: stored_def)

lemma merge_value_array: "merge_value old (JArr xs) = JArr xs"
  by simp

text \<open>
  Claim C5. When the waypoint has the properties \<open>lat\<close> and \<open>lng\<close>, its address is
  not the text of the current location and no entry of the mirror of the recent
  waypoints has its address, \<open>saveWaypoint\<close> makes a second call that writes the
  waypoint followed by the mirror, cut to five entries, under the key of the recent
  waypoints; the store then holds that list. When \<open>lat\<close> or \<open>lng\<close> is missing, or the
  address is the text of the current location, or an entry of the mirror (an array of
  objects) has the address, the merge of the transaction is the only call and the store
  keeps its recent waypoints.
\<close>

theorem saveWaypoint_recent_waypoints:
  "(lodashHas waypoint ''lat'' \<and> lodashHas waypoint ''lng'' \<and>
    get waypoint ''address'' \<noteq> JStr (YOUR_LOCATION_TEXT X) \<and>
    (\<forall>recentWaypoint \<in> set recentWaypoints.
       \<not> strict_equals (get recentWaypoint ''address'') (get waypoint ''address''))
    \<longrightarrow>
      saveWaypoint X recentWaypoints transactionID index waypoint isDraft =
        [Merge ((if isDraft then COLLECTION_TRANSACTION X else COLLECTION_TRANSACTION_DRAFT X)
                  @ transactionID)
           (waypoint_patch index waypoint),
         Merge (NVP_RECENT_WAYPOINTS X) (JArr (take 5 (waypoint # recentWaypoints)))] \<and>
      length (take 5 (waypoint # recentWaypoints)) \<le> 5 \<and>
      stored (onyx_run s (saveWaypoint X recentWaypoints transactionID index waypoint isDraft))
          (NVP_RECENT_WAYPOINTS X) =
        JArr (take 5 (waypoint # recentWaypoints))) \<and>
   ((\<not> lodashHas waypoint ''lat'' \<or> \<not> lodashHas waypoint ''lng'' \<or>
     get waypoint ''address'' = JStr (YOUR_LOCATION_TEXT X) \<or>
     (\<exists>recentWaypoint \<in> set recentWaypoints.
        strict_equals (get recentWaypoint ''address'') (get waypoint ''address''))) \<and>
    (\<forall>recentWaypoint \<in> set recentWaypoints. \<exists>fs. recentWaypoint = JObj fs)
    \<longrightarrow>
      saveWaypoint X recentWaypoints transactionID index waypoint isDraft =
        [Merge ((if isDraft then COLLECTION_TRANSACTION X else COLLECTION_TRANSACTION_DRAFT X)
                  @ transactionID)
           (waypoint_patch index waypoint)] \<and>
      (NVP_RECENT_WAYPOINTS X \<noteq>
         (if isDraft then COLLECTION_TRANSACTION X else COLLECTION_TRANSACTION_DRAFT X)
           @ transactionID \<longrightarrow>
       stored (onyx_run s (saveWaypoint X recentWaypoints transactionID index waypoint isDraft))
           (NVP_RECENT_WAYPOINTS X) =
         stored s (NVP_RECENT_WAYPOINTS X)))"
proof (intro conjI impI)
  let ?p = "\<lambda>recentWaypoint. strict_equals (get recentWaypoint ''address'') (get waypoint ''address'')"
  let ?key = "(if isDraft then COLLECTION_TRANSACTION X else COLLECTION_TRANSACTION_DRAFT X) @ transactionID"
  {
    assume h: "lodashHas waypoint ''lat'' \<and> lodashHas waypoint ''lng'' \<and>
      get waypoint ''address'' \<noteq> JStr (YOUR_LOCATION_TEXT X) \<and>
      (\<forall>recentWaypoint \<in> set recentWaypoints. \<not> ?p recentWaypoint)"
    then have f: "array_find ?p recentWaypoints = JUndefined"
      using array_find_none [of recentWaypoints ?p] by blast
    have "waypoint \<noteq> JNull" using h by auto
    then show eq: "saveWaypoint X recentWaypoints transactionID index waypoint isDraft =
        [Merge ?key (waypoint_patch index waypoint),
         Merge (NVP_RECENT_WAYPOINTS X) (JArr (take 5 (waypoint # recentWaypoints)))]"
      using h f by (simp add: saveWaypoint_def waypoint_patch_def isEqual_def Let_def)
    show "length (take 5 (waypoint # recentWaypoints)) \<le> 5" by simp
    show "stored (onyx_run s (saveWaypoint X recentWaypoints transactionID index waypoint isDraft))
          (NVP_RECENT_WAYPOINTS X) = JArr (take 5 (waypoint # recentWaypoints))"
      unfolding eq onyx_run_def by (simp only: foldl.simps stored_after_merge merge_value_array)
  }
  {
    assume h: "(\<not> lodashHas waypoint ''lat'' \<or> \<not> lodashHas waypoint ''lng'' \<or>
       get waypoint ''address'' = JStr (YOUR_LOCATION_TEXT X) \<or>
       (\<exists>recentWaypoint \<in> set recentWaypoints. ?p recentWaypoint)) \<and>
      (\<forall>recentWaypoint \<in> set recentWaypoints. \<exists>fs. recentWaypoint = JObj fs)"
    have t: "truthy (array_find ?p recentWaypoints)" if "\<exists>recentWaypoint \<in> set recentWaypoints. ?p recentWaypoint"
    proof -
      have "array_find ?p recentWaypoints \<in> set recentWaypoints"
        using that by (rule array_find_some)
      then obtain fs where "array_find ?p recentWaypoints = JObj fs" using h by blast
      then show ?thesis by simp
    qed
    show eq: "saveWaypoint X recentWaypoints transactionID index waypoint isDraft =
        [Merge ?key (waypoint_patch index waypoint)]"
      using h t by (auto simp: saveWaypoint_def waypoint_patch_def isEqual_def Let_def)
    {
      assume "NVP_RECENT_WAYPOINTS X \<noteq> ?key"
      then show "stored (onyx_run s (saveWaypoint X recentWaypoints transactionID index waypoint isDraft))
           (NVP_RECENT_WAYPOINTS X) = stored s (NVP_RECENT_WAYPOINTS X)"
        unfolding eq onyx_run_def by (auto simp: stored_def)
    }
  }
qed


theorem saveWaypoint_recent_waypoints_witness:
  "saveWaypoint sample_externals [stop ''A''] ''t1'' ''1'' (stop ''B'') False =
     [Merge ''transactionsDraft_t1'' (waypoint_patch ''1'' (stop ''B'')),
      Merge ''recentWaypoints'' (JArr [stop ''B'', stop ''A''])] \<and>
   stored (onyx_run Map.empty (saveWaypoint sample_externals [stop ''A''] ''t1'' ''1'' (stop ''B'') False))
       ''recentWaypoints'' = JArr [stop ''B'', stop ''A''] \<and>
   saveWaypoint sample_externals [stop ''A''] ''t1'' ''0'' (stop ''A'') False =
     [Merge ''transactionsDraft_t1'' (waypoint_patch ''0'' (stop ''A''))] \<and>
   stored (onyx_run Map.empty (saveWaypoint sample_externals [stop ''A''] ''t1'' ''0'' (stop ''A'') False))
       ''recentWaypoints'' = stored Map.empty ''recentWaypoints''"
proof -
  have k: "COLLECTION_TRANSACTION sample_externals = ''transactions_''"
    "COLLECTION_TRANSACTION_DRAFT sample_externals = ''transactionsDraft_''"
    "NVP_RECENT_WAYPOINTS sample_externals = ''recentWaypoints''"
    "YOUR_LOCATION_TEXT sample_externals = ''Your location''"
    by (simp_all add: sample_externals_def)
  have fresh: "lodashHas (stop ''B'') ''lat'' \<and> lodashHas (stop ''B'') ''lng'' \<and>
    get (stop ''B'') ''address'' \<noteq> JStr (YOUR_LOCATION_TEXT sample_externals) \<and>
    (\<forall>recentWaypoint \<in> set [stop ''A''].
       \<not> strict_equals (get recentWaypoint ''address'') (get (stop ''B'') ''address''))"
    by (simp add: stop_def k)
  have known: "(\<not> lodashHas (stop ''A'') ''lat'' \<or> \<not> lodashHas (stop ''A'') ''lng'' \<or>
     get (stop ''A'') ''address'' = JStr (YOUR_LOCATION_TEXT sample_externals) \<or>
     (\<exists>recentWaypoint \<in> set [stop ''A''].
        strict_equals (get recentWaypoint ''address'') (get (stop ''A'') ''address''))) \<and>
    (\<forall>recentWaypoint \<in> set [stop ''A'']. \<exists>fs. recentWaypoint = JObj fs)"
    by (simp add: stop_def k)
  have distinct_keys: "NVP_RECENT_WAYPOINTS sample_externals \<noteq>
     (if False then COLLECTION_TRANSACTION sample_externals
      else COLLECTION_TRANSACTION_DRAFT sample_externals) @ ''t1''"
    by (simp add: k)
  have r1: "saveWaypoint sample_externals [stop ''A''] ''t1'' ''1'' (stop ''B'') False =
        [Merge ((if False then COLLECTION_TRANSACTION sample_externals
                 else COLLECTION_TRANSACTION_DRAFT sample_externals) @ ''t1'')
           (waypoint_patch ''1'' (stop ''B'')),
         Merge (NVP_RECENT_WAYPOINTS sample_externals) (JArr (take 5 (stop ''B'' # [stop ''A''])))] \<and>
      stored (onyx_run Map.empty (saveWaypoint sample_externals [stop ''A''] ''t1'' ''1'' (stop ''B'') False))
          (NVP_RECENT_WAYPOINTS sample_externals) =
        JArr (take 5 (stop ''B'' # [stop ''A'']))"
    using fresh
      saveWaypoint_recent_waypoints
        [of "stop ''B''" sample_externals "[stop ''A'']" "''t1''" "''1''" False Map.empty]
    by blast
  have r2: "saveWaypoint sample_externals [stop ''A''] ''t1'' ''0'' (stop ''A'') False =
        [Merge ((if False then COLLECTION_TRANSACTION sample_externals
                 else COLLECTION_TRANSACTION_DRAFT sample_externals) @ ''t1'')
           (waypoint_patch ''0'' (stop ''A''))] \<and>
      stored (onyx_run Map.empty (saveWaypoint sample_externals [stop ''A''] ''t1'' ''0'' (stop ''A'') False))
          (NVP_RECENT_WAYPOINTS sample_externals) =
        stored Map.empty (NVP_RECENT_WAYPOINTS sample_externals)"
    using known distinct_keys
      saveWaypoint_recent_waypoints
        [of "stop ''A''" sample_externals "[stop ''A'']" "''t1''" "''0''" False Map.empty]
    by blast
  have c1: "saveWaypoint sample_externals [stop ''A''] ''t1'' ''1'' (stop ''B'') False =
     [Merge ''transactionsDraft_t1'' (waypoint_patch ''1'' (stop ''B'')),
      Merge ''recentWaypoints'' (JArr [stop ''B'', stop ''A''])]"
    using r1 by (simp add: k)
  have c2: "stored (onyx_run Map.empty (saveWaypoint sample_externals [stop ''A''] ''t1'' ''1'' (stop ''B'') False))
       ''recentWaypoints'' = JArr [stop ''B'', stop ''A'']"
    using conjunct2 [OF r1] by (simp only: k) simp
  have c3: "saveWaypoint sample_externals [stop ''A''] ''t1'' ''0'' (stop ''A'') False =
     [Merge ''transactionsDraft_t1'' (waypoint_patch ''0'' (stop ''A''))]"
    using r2 by (simp add: k)
  have c4: "stored (onyx_run Map.empty (saveWaypoint sample_externals [stop ''A''] ''t1'' ''0'' (stop ''A'') False))
       ''recentWaypoints'' = stored Map.empty ''recentWaypoints''"
    using conjunct2 [OF r2] by (simp only: k)
  show ?thesis using c1 c2 c3 c4 by blast
qed

section \<open>Requesting a route\<close>

text \<open>
  Claim C8. The request of \<open>getRoute\<close> carries one optimistic merge of
  \<open>comment.isLoading = true\<close> and \<open>errorFields.route = null\<close> under the committed
  key, and that of \<open>getRouteForDraft\<close> the same under the draft key. For both, the
  success data and the failure data are the same single merge of
  \<open>comment.isLoading = false\<close>, which has no route and no error.
\<close>

theorem route_request_patches:
  "optimisticData (request_data (getRoute X transactionID waypoints)) =
     [Update METHOD_MERGE (COLLECTION_TRANSACTION X @ transactionID)
        (JObj [(''comment'', JObj [(''isLoading'', JBool True)]),
               (''errorFields'', JObj [(''route'', JNull)])])] \<and>
   successData (request_data (getRoute X transactionID waypoints)) =
     [Update METHOD_MERGE (COLLECTION_TRANSACTION X @ transactionID)
        (JObj [(''comment'', JObj [(''isLoading'', JBool False)])])] \<and>
   failureData (request_data (getRoute X transactionID waypoints)) =
     successData (request_data (getRoute X transactionID waypoints)) \<and>
   optimisticData (request_data (getRouteForDraft X transactionID waypoints)) =
     [Update METHOD_MERGE (COLLECTION_TRANSACTION_DRAFT X @ transactionID)
        (JObj [(''comment'', JObj [(''isLoading'', JBool True)]),
               (''errorFields'', JObj [(''route'', JNull)])])] \<and>
   successData (request_data (getRouteForDraft X transactionID waypoints)) =
     [Update METHOD_MERGE (COLLECTION_TRANSACTION_DRAFT X @ transactionID)
        (JObj [(''comment'', JObj [(''isLoading'', JBool False)])])] \<and>
   failureData (request_data (getRouteForDraft X transactionID waypoints)) =
     successData (request_data (getRouteForDraft X transactionID waypoints))"
  by (simp add: getRoute_def getRouteForDraft_def getOnyxDataForRouteRequest_def request_data_def)

theorem route_request_patches_witness:
  "optimisticData (request_data (getRoute sample_externals ''t1'' (JObj []))) =
     [Update METHOD_MERGE ''transactions_t1''
        (JObj [(''comment'', JObj [(''isLoading'', JBool True)]),
               (''errorFields'', JObj [(''route'', JNull)])])] \<and>
   failureData (request_data (getRouteForDraft sample_externals ''t1'' (JObj []))) =
     [Update METHOD_MERGE ''transactionsDraft_t1''
        (JObj [(''comment'', JObj [(''isLoading'', JBool False)])])]"
  using route_request_patches [of sample_externals "''t1''" "JObj []"]
  by (simp add: sample_externals_def)

section \<open>Adding a stop\<close>

lemma get_merge_single_same:
  "get (merge_value old (JObj [(k, v)])) k = merge_value (get old k) v"
  by (cases old) (simp_all add: update_conv' merge_value_undefined split: option.splits)

lemma get_merge_single_other:
  "k' \<noteq> k \<Longrightarrow> get (merge_value old (JObj [(k, v)])) k' = get old k'"
  by (cases old) (simp_all add: update_conv' split: option.splits)

lemma stored_waypoints_stored:
  "stored_waypoints s k = get (get (stored s k) ''comment'') ''waypoints''"
  by (simp add: stored_waypoints_def stored_def split: option.splits)

lemma addStop_call:
  "addStop X allTransactions transactionID =
     [Merge (COLLECTION_TRANSACTION X @ transactionID)
        (JObj [(''comment'',
           JObj [(''waypoints'',
              JObj [(waypointKey
                       (case allTransactions transactionID of
                          Some t \<Rightarrow> length (Object_keys (existingWaypoints t))
                        | None \<Rightarrow> 0),
                     JObj [])])])])]"
  by (auto simp: addStop_def existingWaypoints_def Let_def nullish_def Object_keys_def
      split: option.splits)

text \<open>
  Claim C6. With \<open>N\<close> the number of waypoint keys of the transaction in the mirror (0
  when the mirror has no such transaction), \<open>addStop\<close> makes one call: the merge of an
  empty waypoint under \<open>waypointN\<close> into the committed transaction. In the store the
  merge leaves every entry \<open>waypointj\<close> with \<open>j\<close> other than \<open>N\<close> as it was, and
  \<open>waypointN\<close> becomes the empty waypoint when nothing was stored under it.
\<close>

theorem addStop_appends:
  assumes "N = (case allTransactions transactionID of
                  Some t \<Rightarrow> length (Object_keys (existingWaypoints t))
                | None \<Rightarrow> 0)"
    and "key = COLLECTION_TRANSACTION X @ transactionID"
  shows "addStop X allTransactions transactionID =
           [Merge key
              (JObj [(''comment'', JObj [(''waypoints'', JObj [(waypointKey N, JObj [])])])])] \<and>
         (\<forall>j. j \<noteq> N \<longrightarrow>
            get (stored_waypoints (onyx_run s (addStop X allTransactions transactionID)) key)
                (waypointKey j) =
            get (stored_waypoints s key) (waypointKey j)) \<and>
         (get (stored_waypoints s key) (waypointKey N) = JUndefined \<longrightarrow>
            get (stored_waypoints (onyx_run s (addStop X allTransactions transactionID)) key)
                (waypointKey N) = JObj [])"
proof -
  let ?patch = "JObj [(''comment'', JObj [(''waypoints'', JObj [(waypointKey N, JObj [])])])]"
  have call: "addStop X allTransactions transactionID = [Merge key ?patch]"
    unfolding addStop_call assms by simp
  have after: "stored_waypoints (onyx_run s [Merge key ?patch]) key =
      merge_value (stored_waypoints s key) (JObj [(waypointKey N, JObj [])])"
    unfolding stored_waypoints_stored onyx_run_def
    by (simp only: foldl.simps stored_after_merge get_merge_single_same)
  have other: "get (stored_waypoints (onyx_run s [Merge key ?patch]) key) (waypointKey j) =
      get (stored_waypoints s key) (waypointKey j)" if "j \<noteq> N" for j
    unfolding after by (rule get_merge_single_other) (simp add: waypointKey_inj that)
  have new: "get (stored_waypoints (onyx_run s [Merge key ?patch]) key) (waypointKey N) = JObj []"
    if "get (stored_waypoints s key) (waypointKey N) = JUndefined"
    unfolding after get_merge_single_same that by simp
  show ?thesis unfolding call using other new by simp
qed


theorem addStop_appends_witness:
  "addStop sample_externals [''t2'' \<mapsto> trip2] ''t2'' =
     [Merge ''transactions_t2''
        (JObj [(''comment'', JObj [(''waypoints'', JObj [(''waypoint2'', JObj [])])])])] \<and>
   get (stored_waypoints
          (onyx_run [''transactions_t2'' \<mapsto> trip2] (addStop sample_externals [''t2'' \<mapsto> trip2] ''t2''))
          ''transactions_t2'') ''waypoint1'' = stop ''B'' \<and>
   get (stored_waypoints
          (onyx_run [''transactions_t2'' \<mapsto> trip2] (addStop sample_externals [''t2'' \<mapsto> trip2] ''t2''))
          ''transactions_t2'') ''waypoint2'' = JObj [] \<and>
   addStop sample_externals Map.empty ''t9'' =
     [Merge ''transactions_t9''
        (JObj [(''comment'', JObj [(''waypoints'', JObj [(''waypoint0'', JObj [])])])])]"
proof -
  have n: "(2::nat) = (case [''t2'' \<mapsto> trip2] ''t2'' of
                  Some t \<Rightarrow> length (Object_keys (existingWaypoints t))
                | None \<Rightarrow> 0)"
    by (simp add: length_Object_keys sample_waypoints)
  have k: "''transactions_t2'' = COLLECTION_TRANSACTION sample_externals @ ''t2''"
    by (simp add: sample_externals_def)
  have n0: "(0::nat) = (case (Map.empty :: string \<rightharpoonup> jsval) ''t9'' of
                  Some t \<Rightarrow> length (Object_keys (existingWaypoints t))
                | None \<Rightarrow> 0)"
    by simp
  have k0: "''transactions_t9'' = COLLECTION_TRANSACTION sample_externals @ ''t9''"
    by (simp add: sample_externals_def)
  have before: "get (stored_waypoints [''transactions_t2'' \<mapsto> trip2] ''transactions_t2'') (waypointKey 1) = stop ''B''"
    "get (stored_waypoints [''transactions_t2'' \<mapsto> trip2] ''transactions_t2'') (waypointKey 2) = JUndefined"
    by (simp_all add: stored_waypoints_def trip2_def waypointKey_samples)
  have ne: "(1::nat) \<noteq> 2" by simp
  note a = addStop_appends [where N = 2 and allTransactions = "[''t2'' \<mapsto> trip2]"
      and transactionID = "''t2''" and key = "''transactions_t2''" and X = sample_externals
      and s = "[''transactions_t2'' \<mapsto> trip2]", OF n k]
  note b = addStop_appends [where N = 0 and allTransactions = Map.empty
      and transactionID = "''t9''" and key = "''transactions_t9''" and X = sample_externals
      and s = Map.empty, OF n0 k0]
  have c1: "addStop sample_externals [''t2'' \<mapsto> trip2] ''t2'' =
     [Merge ''transactions_t2''
        (JObj [(''comment'', JObj [(''waypoints'', JObj [(''waypoint2'', JObj [])])])])]"
    using a by (simp add: waypointKey_samples)
  have c2: "get (stored_waypoints
          (onyx_run [''transactions_t2'' \<mapsto> trip2] (addStop sample_externals [''t2'' \<mapsto> trip2] ''t2''))
          ''transactions_t2'') (waypointKey 1) = stop ''B''"
    using a ne before(1) by metis
  have c3: "get (stored_waypoints
          (onyx_run [''transactions_t2'' \<mapsto> trip2] (addStop sample_externals [''t2'' \<mapsto> trip2] ''t2''))
          ''transactions_t2'') (waypointKey 2) = JObj []"
    using a before(2) by blast
  have c4: "addStop sample_externals Map.empty ''t9'' =
     [Merge ''transactions_t9''
        (JObj [(''comment'', JObj [(''waypoints'', JObj [(''waypoint0'', JObj [])])])])]"
    using b by (simp add: waypointKey_samples)
  show ?thesis using c1 c2 c3 c4 by (simp only: waypointKey_samples) 
qed

section \<open>Updating all waypoints\<close>

lemma map_of_merge_fields:
  "distinct (map fst patch) \<Longrightarrow>
   map_of (merge_fields fs patch) k =
     (case map_of patch k of
        None \<Rightarrow> map_of fs k
      | Some v \<Rightarrow> Some (case map_of fs k of Some old \<Rightarrow> merge_value old v | None \<Rightarrow> v))"
proof (induction patch arbitrary: fs)
  case Nil
  then show ?case by simp
next
  case (Cons kv patch)
  obtain k1 v1 where kv: "kv = (k1, v1)" by (cases kv)
  have d: "distinct (map fst patch)" and fresh: "map_of patch k1 = None"
    using Cons.prems by (auto simp: kv map_of_eq_None_iff)
  show ?case
    unfolding kv merge_fields.simps Cons.IH [OF d]
    using fresh by (auto simp: update_conv' split: option.splits)
qed

lemma get_merge_value:
  assumes "distinct (map fst patch)"
  shows "get (merge_value old (JObj patch)) k =
     (case map_of patch k of None \<Rightarrow> get old k | Some v \<Rightarrow> merge_value (get old k) v)"
proof (cases old)
  case (JObj fs)
  then show ?thesis
    by (simp add: map_of_merge_fields [OF assms] merge_value_undefined split: option.splits)
qed (simp_all add: merge_value_undefined split: option.splits)

lemma updateWaypoints_store_effect:
  assumes "key = (if isDraft then COLLECTION_TRANSACTION_DRAFT X else COLLECTION_TRANSACTION X) @ transactionID"
    and "after = onyx_apply s (updateWaypoints X transactionID waypoints isDraft)"
  shows "stored_waypoints after key = merge_value (stored_waypoints s key) waypoints"
    and "get (get (stored after key) ''errorFields'') ''route'' = JNull"
    and "get (get (get (stored after key) ''routes'') ''route0'') ''distance'' = JNull"
    and "get (get (get (get (stored after key) ''routes'') ''route0'') ''geometry'') ''coordinates'' = JNull"
proof -
  let ?patch = "[(''comment'', JObj [(''waypoints'', waypoints)]),
              (''errorFields'', JObj [(''route'', JNull)]),
              (''routes'',
                 JObj [(''route0'',
                    JObj [(''distance'', JNull),
                          (''geometry'', JObj [(''coordinates'', JNull)])])])]"
  have st: "stored after key = merge_value (stored s key) (JObj ?patch)"
    unfolding assms updateWaypoints_def by (rule stored_after_merge)
  have d: "distinct (map fst ?patch)" by simp
  have d2: "distinct (map fst [(''distance'', JNull), (''geometry'', JObj [(''coordinates'', JNull)])])"
    by simp
  have c: "get (stored after key) ''comment'' =
      merge_value (get (stored s key) ''comment'') (JObj [(''waypoints'', waypoints)])"
    unfolding st get_merge_value [OF d] by simp
  show "stored_waypoints after key = merge_value (stored_waypoints s key) waypoints"
    unfolding stored_waypoints_stored c by (rule get_merge_single_same)
  have e: "get (stored after key) ''errorFields'' =
      merge_value (get (stored s key) ''errorFields'') (JObj [(''route'', JNull)])"
    unfolding st get_merge_value [OF d] by simp
  show "get (get (stored after key) ''errorFields'') ''route'' = JNull"
    unfolding e get_merge_single_same by simp
  have r: "get (stored after key) ''routes'' =
      merge_value (get (stored s key) ''routes'')
        (JObj [(''route0'',
                    JObj [(''distance'', JNull),
                          (''geometry'', JObj [(''coordinates'', JNull)])])])"
    unfolding st get_merge_value [OF d] by simp
  show "get (get (get (stored after key) ''routes'') ''route0'') ''distance'' = JNull"
    unfolding r get_merge_single_same get_merge_value [OF d2] by simp
  show "get (get (get (get (stored after key) ''routes'') ''route0'') ''geometry'') ''coordinates'' = JNull"
    unfolding r get_merge_single_same get_merge_value [OF d2]
    by (simp add: get_merge_single_same del: merge_value.simps(1) get.simps)
qed

text \<open>
  Claim C2. \<open>updateWaypoints\<close> makes one merge of the given waypoints, of
  \<open>errorFields.route = null\<close> and of \<open>routes.route0\<close> with \<open>distance\<close> and
  \<open>geometry.coordinates\<close> set to \<^verbatim>\<open>null\<close>, and returns its promise. The route and the
  route error are cleared whatever was stored (\<open>updateWaypoints_store_effect\<close>), but the
  waypoints are merged, not replaced: on a stored transaction with \<open>waypoint0\<close>,
  \<open>waypoint1\<close> and \<open>waypoint2\<close>, giving the two waypoints that are left once the
  middle stop is gone keeps the stored \<open>waypoint2\<close>.
\<close>

theorem updateWaypoints_keeps_stale_waypoint:
  "stored_waypoints
     (onyx_apply [''transactions_t3'' \<mapsto> trip3]
        (updateWaypoints sample_externals ''t3''
           (JObj [(''waypoint0'', stop ''A''), (''waypoint1'', stop ''C'')]) False))
     ''transactions_t3'' =
   JObj [(''waypoint0'', stop ''A''), (''waypoint1'', stop ''C''), (''waypoint2'', stop ''C'')]"
  by (simp add: updateWaypoints_def sample_externals_def stored_waypoints_def trip3_def stop_def)

end
